theory Spec2Isabelle
  imports Main "HOL-Library.Multiset"
begin

section \<open>JavaScript strings\<close>

text \<open>
  A JavaScript string is a sequence of UTF-16 code units, and \<open>length\<close>, \<open>slice\<close>,
  \<open>lastIndexOf\<close> and the regular expressions of the utilities (none has the \<open>u\<close> flag) all
  count code units. A string is modelled as a \<open>char list\<close> whose elements are code units in
  the range U+0000..U+00FF, where a code unit is a code point.
\<close>

definition isWhiteSpace :: "char \<Rightarrow> bool" where
  \<comment> \<open>the class \<open>\s\<close>, which is also what \<open>trim\<close> removes: TAB, LF, VT, FF, CR, SP, NBSP\<close>
  "isWhiteSpace c \<longleftrightarrow>
     c \<in> {CHR 0x09, CHR 0x0A, CHR 0x0B, CHR 0x0C, CHR 0x0D, CHR 0x20, CHR 0xA0}"

definition trim :: "string \<Rightarrow> string" where
  "trim s = rev (dropWhile isWhiteSpace (rev (dropWhile isWhiteSpace s)))"

function split_ws :: "string \<Rightarrow> string list" where
  \<comment> \<open>\<open>s.split(/\s+/)\<close>: the piece before the next whitespace run, then the rest after that
      run; a run at either end leaves an empty piece there, and the empty string gives one
      empty piece\<close>
  "split_ws s =
     (let piece = takeWhile (\<lambda>c. \<not> isWhiteSpace c) s;
          rest = dropWhile (\<lambda>c. \<not> isWhiteSpace c) s
      in if rest = [] then [piece] else piece # split_ws (dropWhile isWhiteSpace (tl rest)))"
  by pat_completeness auto
termination
proof (relation "measure length")
  fix s piece rest
  assume r: "rest = dropWhile (\<lambda>c. \<not> isWhiteSpace c) s" and ne: "rest \<noteq> []"
  have "length (dropWhile isWhiteSpace (tl rest)) \<le> length (tl rest)"
    by (rule length_dropWhile_le)
  also have "\<dots> < length rest" using ne by (cases rest) simp_all
  also have "\<dots> \<le> length s" unfolding r by (rule length_dropWhile_le)
  finally show "(dropWhile isWhiteSpace (tl rest), s) \<in> measure length" by simp
qed simp

declare split_ws.simps [simp del]

definition ceil_div :: "nat \<Rightarrow> nat \<Rightarrow> nat" where
  \<comment> \<open>\<open>Math.ceil(a / b)\<close> for a count \<open>a\<close> and a positive constant \<open>b\<close>; for a count
      below 2^53 the quotient in double precision has the ceiling of the exact one\<close>
  "ceil_div a b = (a + b - 1) div b"

section \<open>Reading time\<close>

text \<open>\<open>calculateReadingTime\<close> of \<open>src/utils/blog.ts\<close>.\<close>

definition calculateReadingTime_blog :: "string \<Rightarrow> nat" where
  "calculateReadingTime_blog content =
     (let wordsPerMinute = 200;
          words = length (split_ws (trim content))
      in ceil_div words wordsPerMinute)"

text \<open>\<open>calculateReadingTime\<close> of the security-hardened utilities.\<close>

definition calculateReadingTime :: "string \<Rightarrow> nat" where
  "calculateReadingTime content =
     (let maxContentLength = 100000;
          safeContent = take maxContentLength content;
          wordsPerMinute = 200;
          words = length (split_ws (trim safeContent));
          readingTime = ceil_div words wordsPerMinute
      in max 1 readingTime)"

section \<open>Character classes and case mapping\<close>

definition in_range :: "char \<Rightarrow> nat \<Rightarrow> nat \<Rightarrow> bool" where
  "in_range c lo hi \<longleftrightarrow> lo \<le> of_char c \<and> (of_char c :: nat) \<le> hi"

definition isLowerAlnum :: "char \<Rightarrow> bool" where
  \<comment> \<open>the class \<open>[a-z0-9]\<close>\<close>
  "isLowerAlnum c \<longleftrightarrow> in_range c 97 122 \<or> in_range c 48 57"

definition isSlugChar :: "char \<Rightarrow> bool" where
  \<comment> \<open>the class \<open>[a-z0-9-]\<close>\<close>
  "isSlugChar c \<longleftrightarrow> isLowerAlnum c \<or> c = CHR ''-''"

definition isWordChar :: "char \<Rightarrow> bool" where
  \<comment> \<open>the class \<open>\w\<close>, that is \<open>[A-Za-z0-9_]\<close>\<close>
  "isWordChar c \<longleftrightarrow> in_range c 65 90 \<or> in_range c 97 122 \<or> in_range c 48 57 \<or> c = CHR ''_''"

definition toLowerCase_char :: "char \<Rightarrow> char" where
  \<comment> \<open>the lower-case mapping on U+0000..U+00FF: A-Z, and the capital letters U+00C0..U+00DE
      apart from the multiplication sign U+00D7, move up by 32; every other code unit stays\<close>
  "toLowerCase_char c =
     (if in_range c 65 90 \<or> (in_range c 192 222 \<and> c \<noteq> CHR 0xD7)
      then char_of (of_char c + (32 :: nat)) else c)"

definition toLowerCase :: "string \<Rightarrow> string" where
  "toLowerCase s = map toLowerCase_char s"

section \<open>Slugs\<close>

fun collapseHyphens :: "string \<Rightarrow> string" where
  \<comment> \<open>\<open>.replace(/-+/g, '-')\<close>: each maximal run of hyphens becomes one hyphen\<close>
  "collapseHyphens (c # d # cs) =
     (if c = CHR ''-'' \<and> d = CHR ''-'' then collapseHyphens (d # cs)
      else c # collapseHyphens (d # cs))"
| "collapseHyphens cs = cs"

definition stripEdgeHyphens :: "string \<Rightarrow> string" where
  \<comment> \<open>\<open>.replace(/^-|-$/g, '')\<close>: a hyphen at the very start is removed, then a hyphen at the
      very end of what is left\<close>
  "stripEdgeHyphens s =
     (let a = (case s of [] \<Rightarrow> [] | c # cs \<Rightarrow> if c = CHR ''-'' then cs else s)
      in if a \<noteq> [] \<and> last a = CHR ''-'' then butlast a else a)"

definition sanitizeSlug :: "string \<Rightarrow> string" where
  "sanitizeSlug slug =
     stripEdgeHyphens
       (collapseHyphens
         (map (\<lambda>c. if isSlugChar c then c else CHR ''-'')
           (toLowerCase slug)))"

definition matchesSlugPattern :: "string \<Rightarrow> bool" where
  \<comment> \<open>the pattern \<open>^[a-z0-9]([a-z0-9-]*[a-z0-9])?$|^$\<close>\<close>
  "matchesSlugPattern s \<longleftrightarrow>
     s = [] \<or> (isLowerAlnum (hd s) \<and> list_all isSlugChar s \<and> isLowerAlnum (last s))"

fun noDoubleHyphen :: "string \<Rightarrow> bool" where
  "noDoubleHyphen (c # d # cs) \<longleftrightarrow> \<not> (c = CHR ''-'' \<and> d = CHR ''-'') \<and> noDoubleHyphen (d # cs)"
| "noDoubleHyphen cs \<longleftrightarrow> True"

section \<open>Tags\<close>

datatype js_value =
    JUndefined
  | JNull
  | JBoolean bool
  | JNumber int
  | JString string
  | JDate "int option"  \<comment> \<open>a Date object and its time value in milliseconds; \<open>None\<close> is NaN\<close>
  | JArray "js_value list"

definition isTagClassChar :: "char \<Rightarrow> bool" where
  \<comment> \<open>the class \<open>[a-z0-9-\s]\<close> under the \<open>i\<close> flag: a code unit matches when its upper-case
      form is that of a member, so A-Z match as well\<close>
  "isTagClassChar c \<longleftrightarrow>
     in_range c 97 122 \<or> in_range c 65 90 \<or> in_range c 48 57 \<or> c = CHR ''-'' \<or> isWhiteSpace c"

definition tagPatternTest :: "string \<Rightarrow> bool" where
  \<comment> \<open>\<open>/^[a-z0-9-\s]+$/i.test(tag)\<close>\<close>
  "tagPatternTest tag \<longleftrightarrow> tag \<noteq> [] \<and> list_all isTagClassChar tag"

fun nonBlankString :: "js_value \<Rightarrow> string option" where
  \<comment> \<open>\<open>typeof tag === 'string' && tag.trim().length > 0\<close>, giving the string when it holds\<close>
  "nonBlankString (JString s) = (if length (trim s) > 0 then Some s else None)"
| "nonBlankString v = None"

definition sanitizeTags :: "js_value list \<Rightarrow> string list" where
  "sanitizeTags tags =
     take 10
       (filter tagPatternTest
         (map (\<lambda>tag. toLowerCase (trim tag))
           (List.map_filter nonBlankString tags)))"

section \<open>Excerpts\<close>

function stripTags :: "string \<Rightarrow> string" where
  \<comment> \<open>\<open>.replace(/<[^>]*>/g, '')\<close>: a \<open><\<close> with a \<open>>\<close> somewhere after it is removed together
      with everything up to the first such \<open>>\<close>; scanning goes on after it\<close>
  "stripTags [] = []"
| "stripTags (c # cs) =
     (if c = CHR ''<'' \<and> CHR ''>'' \<in> set cs
      then stripTags (tl (dropWhile (\<lambda>x. x \<noteq> CHR ''>'') cs))
      else c # stripTags cs)"
  by pat_completeness auto
termination
proof (relation "measure length")
  fix c :: char and cs :: string
  have "length (tl (dropWhile (\<lambda>x. x \<noteq> CHR ''>'') cs)) \<le> length (dropWhile (\<lambda>x. x \<noteq> CHR ''>'') cs)"
    by simp
  also have "\<dots> \<le> length cs" by (rule length_dropWhile_le)
  finally show "(tl (dropWhile (\<lambda>x. x \<noteq> CHR ''>'') cs), c # cs) \<in> measure length" by simp
qed simp_all

definition keepInExcerpt :: "char \<Rightarrow> bool" where
  \<comment> \<open>the complement of the class \<open>[^\w\s.,!?-]\<close>\<close>
  "keepInExcerpt c \<longleftrightarrow>
     isWordChar c \<or> isWhiteSpace c \<or> c \<in> {CHR ''.'', CHR '','', CHR ''!'', CHR ''?'', CHR ''-''}"

definition plainTextOf :: "string \<Rightarrow> string" where
  "plainTextOf content = trim (filter keepInExcerpt (stripTags content))"

definition slice0 :: "string \<Rightarrow> int \<Rightarrow> string" where
  \<comment> \<open>\<open>s.slice(0, e)\<close>: a negative end counts from the end of the string\<close>
  "slice0 s e = (if e < 0 then take (nat (int (length s) + e)) s else take (nat e) s)"

definition lastIndexOf :: "string \<Rightarrow> char \<Rightarrow> int" where
  \<comment> \<open>the greatest index holding the code unit, or -1\<close>
  "lastIndexOf s c =
     (let r = dropWhile (\<lambda>x. x \<noteq> c) (rev s) in if r = [] then - 1 else int (length r) - 1)"

definition generateExcerpt :: "string \<Rightarrow> int \<Rightarrow> string" where
  "generateExcerpt content maxLength =
     (let plainText = plainTextOf content
      in if int (length plainText) \<le> maxLength then plainText
         else
           let truncated = slice0 plainText maxLength;
               lastSpaceIndex = lastIndexOf truncated CHR '' ''
           in if lastSpaceIndex > 0 then slice0 truncated lastSpaceIndex @ ''...''
              else truncated @ ''...'')"

section \<open>Dates\<close>

datatype js_error = TypeError | Error string

text \<open>
  The body of the \<open>try\<close> block of \<open>formatDate\<close>. The runtime's \<open>new Date(string)\<close> and its
  \<open>toLocaleDateString('en-US', {year: 'numeric', month: 'long', day: 'numeric'})\<close> are the
  parameters \<open>dateParse\<close> (the time value, \<open>None\<close> for NaN) and \<open>toLocaleDateString\<close>. A value
  that is neither a string nor a Date has no \<open>getTime\<close> method, and calling it throws.
\<close>

fun formatDate_try :: "(string \<Rightarrow> int option) \<Rightarrow> (int \<Rightarrow> string) \<Rightarrow> js_value \<Rightarrow> js_error + string" where
  "formatDate_try dateParse toLocaleDateString date =
     (let dateObj = (case date of JString s \<Rightarrow> JDate (dateParse s) | _ \<Rightarrow> date)
      in case dateObj of
           JDate None \<Rightarrow> Inl (Error ''Invalid date'')
         | JDate (Some t) \<Rightarrow> Inr (toLocaleDateString t)
         | _ \<Rightarrow> Inl TypeError)"

definition formatDate :: "(string \<Rightarrow> int option) \<Rightarrow> (int \<Rightarrow> string) \<Rightarrow> js_value \<Rightarrow> js_error + string" where
  \<comment> \<open>the \<open>try\<close> block with its \<open>catch\<close> clause; \<open>Inl\<close> would be an exception that leaves
      \<open>formatDate\<close>\<close>
  "formatDate dateParse toLocaleDateString date =
     (case formatDate_try dateParse toLocaleDateString date of
        Inr s \<Rightarrow> Inr s
      | Inl e \<Rightarrow> Inr ''Invalid date'')"

section \<open>The content schema\<close>

datatype zod_schema =
    ZString
  | ZDate
  | ZBoolean
  | ZArray zod_schema
  | ZDefault zod_schema js_value
  | ZOptional zod_schema

datatype zod_issue = invalid_type | invalid_date

text \<open>
  The schema combinators of the validation library, as far as the collection uses them:
  \<open>z.string()\<close>, \<open>z.date()\<close> and \<open>z.boolean()\<close> accept a value of their type (a Date only with
  a time value), \<open>z.array\<close> parses every element, \<open>.default(d)\<close> parses \<open>d\<close> in place of
  \<open>undefined\<close>, and \<open>.optional()\<close> lets \<open>undefined\<close> through.
\<close>

fun zod_parse :: "zod_schema \<Rightarrow> js_value \<Rightarrow> zod_issue list + js_value" where
  "zod_parse ZString v = (case v of JString s \<Rightarrow> Inr v | _ \<Rightarrow> Inl [invalid_type])"
| "zod_parse ZDate v =
     (case v of JDate None \<Rightarrow> Inl [invalid_date] | JDate (Some t) \<Rightarrow> Inr v | _ \<Rightarrow> Inl [invalid_type])"
| "zod_parse ZBoolean v = (case v of JBoolean b \<Rightarrow> Inr v | _ \<Rightarrow> Inl [invalid_type])"
| "zod_parse (ZArray t) v =
     (case v of
        JArray xs \<Rightarrow>
          (let rs = map (zod_parse t) xs
           in if list_ex isl rs then Inl (concat (map projl (filter isl rs)))
              else Inr (JArray (map projr rs)))
      | _ \<Rightarrow> Inl [invalid_type])"
| "zod_parse (ZDefault t d) v = (if v = JUndefined then zod_parse t d else zod_parse t v)"
| "zod_parse (ZOptional t) v = (if v = JUndefined then Inr JUndefined else zod_parse t v)"

definition field_of :: "(string \<rightharpoonup> js_value) \<Rightarrow> string \<Rightarrow> js_value" where
  \<comment> \<open>reading a key of the frontmatter object: an absent key reads as \<open>undefined\<close>\<close>
  "field_of raw k = (case raw k of None \<Rightarrow> JUndefined | Some v \<Rightarrow> v)"

definition zod_object_parse ::
  "(string \<times> zod_schema) list \<Rightarrow> (string \<rightharpoonup> js_value) \<Rightarrow> (string \<times> zod_issue) list + (string \<times> js_value) list" where
  \<comment> \<open>\<open>z.object(shape)\<close>: every key of the shape is parsed and the issues of all keys are
      collected under their key; the result holds the keys of the shape whose value is not
      \<open>undefined\<close> or that the input has, and no key outside the shape\<close>
  "zod_object_parse shape raw =
     (let rs = map (\<lambda>(k, t). (k, zod_parse t (field_of raw k))) shape;
          issues = concat (map (\<lambda>(k, r). case r of Inl is \<Rightarrow> map (Pair k) is | Inr v \<Rightarrow> []) rs)
      in if issues = []
         then Inr (filter (\<lambda>(k, v). v \<noteq> JUndefined \<or> raw k \<noteq> None)
                    (map (\<lambda>(k, r). (k, projr r)) rs))
         else Inl issues)"

definition blogCollection :: "(string \<times> zod_schema) list" where
  "blogCollection =
     [(''title'', ZString),
      (''description'', ZString),
      (''publishDate'', ZDate),
      (''author'', ZString),
      (''tags'', ZDefault (ZArray ZString) (JArray [])),
      (''image'', ZOptional ZString),
      (''draft'', ZDefault ZBoolean (JBoolean False))]"

section \<open>Reference definitions\<close>

text \<open>
  The computations as the specification words them, to compare the code with, and the
  predicates the properties are stated with.
\<close>

function spec_words :: "string \<Rightarrow> string list" where
  \<comment> \<open>the words of a text: its maximal runs of code units that are not whitespace\<close>
  "spec_words s =
     (let t = dropWhile isWhiteSpace s
      in if t = [] then []
         else takeWhile (\<lambda>c. \<not> isWhiteSpace c) t # spec_words (dropWhile (\<lambda>c. \<not> isWhiteSpace c) (tl t)))"
  by pat_completeness auto
termination
proof (relation "measure length")
  fix s t
  assume t: "t = dropWhile isWhiteSpace s" and ne: "t \<noteq> []"
  have "length (dropWhile (\<lambda>c. \<not> isWhiteSpace c) (tl t)) \<le> length (tl t)"
    by (rule length_dropWhile_le)
  also have "\<dots> < length t" using ne by (cases t) simp_all
  also have "\<dots> \<le> length s" unfolding t by (rule length_dropWhile_le)
  finally show "(dropWhile (\<lambda>c. \<not> isWhiteSpace c) (tl t), s) \<in> measure length" by simp
qed simp

declare spec_words.simps [simp del]

definition calculateReadingTime_spec :: "string \<Rightarrow> nat" where
  \<comment> \<open>the first 100,000 code units, their words counted, divided by 200 words a minute,
      rounded up, and at least 1\<close>
  "calculateReadingTime_spec content =
     max 1 (ceil_div (length (spec_words (take 100000 content))) 200)"

definition joinSpaces :: "string list \<Rightarrow> string" where
  \<comment> \<open>the words of a list with one space between neighbours\<close>
  "joinSpaces ws = (case ws of [] \<Rightarrow> [] | w # rest \<Rightarrow> w @ concat (map (\<lambda>v. CHR '' '' # v) rest))"

definition isWord :: "string \<Rightarrow> bool" where
  \<comment> \<open>a word: not empty and free of whitespace\<close>
  "isWord w \<longleftrightarrow> w \<noteq> [] \<and> list_all (\<lambda>c. \<not> isWhiteSpace c) w"

definition cleanSlug :: "string \<Rightarrow> bool" where
  \<comment> \<open>only \<open>[a-z0-9-]\<close>, no two hyphens in a row, no hyphen at either end\<close>
  "cleanSlug r \<longleftrightarrow>
     list_all isSlugChar r \<and> noDoubleHyphen r \<and> (r = [] \<or> (hd r \<noteq> CHR ''-'' \<and> last r \<noteq> CHR ''-''))"

definition isTagChar_spec :: "char \<Rightarrow> bool" where
  \<comment> \<open>the class \<open>[a-z0-9-\s]\<close>, case-sensitive\<close>
  "isTagChar_spec c \<longleftrightarrow> isLowerAlnum c \<or> c = CHR ''-'' \<or> isWhiteSpace c"

definition matchesTagPattern_spec :: "string \<Rightarrow> bool" where
  \<comment> \<open>the pattern \<open>^[a-z0-9-\s]+$\<close>\<close>
  "matchesTagPattern_spec t \<longleftrightarrow> t \<noteq> [] \<and> list_all isTagChar_spec t"

fun stringEntries_spec :: "js_value list \<Rightarrow> string list" where
  \<comment> \<open>the entries that are strings and not blank, in their order\<close>
  "stringEntries_spec [] = []"
| "stringEntries_spec (JString s # vs) =
     (if list_all isWhiteSpace s then stringEntries_spec vs else s # stringEntries_spec vs)"
| "stringEntries_spec (v # vs) = stringEntries_spec vs"

definition sanitizeTags_spec :: "js_value list \<Rightarrow> string list" where
  \<comment> \<open>entries that are not strings or are blank dropped, the rest trimmed and put in lower
      case, those matching the pattern kept, the first 10 taken\<close>
  "sanitizeTags_spec tags =
     take 10
       (filter matchesTagPattern_spec
         (map (\<lambda>s. toLowerCase (trim s)) (stringEntries_spec tags)))"

fun normalizedTag :: "js_value \<Rightarrow> string" where
  \<comment> \<open>a string entry trimmed and in lower case\<close>
  "normalizedTag (JString s) = toLowerCase (trim s)"
| "normalizedTag v = []"

fun validTag :: "js_value \<Rightarrow> bool" where
  \<comment> \<open>a string that is not blank and whose normal form matches \<open>^[a-z0-9-\s]+$\<close>\<close>
  "validTag (JString s) \<longleftrightarrow> \<not> list_all isWhiteSpace s \<and> matchesTagPattern_spec (toLowerCase (trim s))"
| "validTag v \<longleftrightarrow> False"

fun timeValue :: "(string \<Rightarrow> int option) \<Rightarrow> js_value \<Rightarrow> int option" where
  \<comment> \<open>the time value the runtime gives an input: that of a Date object, what \<open>new Date\<close>
      reads from a string, and none for any other value\<close>
  "timeValue dateParse (JDate t) = t"
| "timeValue dateParse (JString s) = dateParse s"
| "timeValue dateParse v = None"

definition field_issues :: "(string \<rightharpoonup> js_value) \<Rightarrow> string \<times> zod_schema \<Rightarrow> (string \<times> zod_issue) list" where
  \<comment> \<open>the issues of one key of a shape\<close>
  "field_issues raw =
     (\<lambda>(k, t). case zod_parse t (field_of raw k) of Inl is \<Rightarrow> map (Pair k) is | Inr v \<Rightarrow> [])"

text \<open>
  Modelled from the spec: the validation step of the pipeline (sections 4.1, 5 and 7). Every
  raw record is validated on its own against the schema; a record that fails is reported
  with its identifier and its issues and left out of the output, and the run goes on with
  the other records. The framework code that runs the schema over the documents is not
  among the source files.
\<close>

definition validateRecords ::
  "(string \<times> (string \<rightharpoonup> js_value)) list \<Rightarrow>
     (string \<times> (string \<times> zod_issue) list) list \<times> (string \<times> (string \<times> js_value) list) list" where
  \<comment> \<open>Modelled from the spec: the rejected records with their issues and the accepted
      records, each in the order of the input\<close>
  "validateRecords docs =
     (let results = map (\<lambda>(i, raw). (i, zod_object_parse blogCollection raw)) docs
      in (List.map_filter (\<lambda>(i, r). case r of Inl is \<Rightarrow> Some (i, is) | Inr out \<Rightarrow> None) results,
          List.map_filter (\<lambda>(i, r). case r of Inl is \<Rightarrow> None | Inr out \<Rightarrow> Some (i, out)) results))"

subsection \<open>Calendar dates and the runtime's reading of date-only texts\<close>

definition isDigit :: "char \<Rightarrow> bool" where
  "isDigit c \<longleftrightarrow> in_range c 48 57"

definition digitsValue :: "string \<Rightarrow> nat" where
  "digitsValue ds = foldl (\<lambda>n c. 10 * n + (of_char c - 48)) 0 ds"

definition dateOnlyText :: "string \<Rightarrow> (nat \<times> nat \<times> nat) option" where
  \<comment> \<open>year, month and day of a text of the form \<open>YYYY-MM-DD\<close>\<close>
  "dateOnlyText s =
     (if length s = 10 \<and> s ! 4 = CHR ''-'' \<and> s ! 7 = CHR ''-''
         \<and> list_all isDigit (take 4 s) \<and> list_all isDigit (take 2 (drop 5 s))
         \<and> list_all isDigit (drop 8 s)
      then Some (digitsValue (take 4 s), digitsValue (take 2 (drop 5 s)), digitsValue (drop 8 s))
      else None)"

definition isLeapYear :: "nat \<Rightarrow> bool" where
  "isLeapYear y \<longleftrightarrow> (y mod 4 = 0 \<and> y mod 100 \<noteq> 0) \<or> y mod 400 = 0"

definition daysInMonth :: "nat \<Rightarrow> nat \<Rightarrow> nat" where
  "daysInMonth y m =
     (if m = 2 then (if isLeapYear y then 29 else 28)
      else if m \<in> {4, 6, 9, 11} then 30 else 31)"

definition validCalendarDate :: "nat \<Rightarrow> nat \<Rightarrow> nat \<Rightarrow> bool" where
  \<comment> \<open>a date of the Gregorian calendar: the month exists and the day exists in that month\<close>
  "validCalendarDate y m d \<longleftrightarrow> 1 \<le> m \<and> m \<le> 12 \<and> 1 \<le> d \<and> d \<le> daysInMonth y m"

definition daysFromCivil :: "int \<Rightarrow> int \<Rightarrow> int \<Rightarrow> int" where
  \<comment> \<open>the number of days from 1970-01-01 to the given day of the given month and year\<close>
  "daysFromCivil y m d =
     (let y' = (if m \<le> 2 then y - 1 else y);
          era = y' div 400;
          yoe = y' - era * 400;
          doy = (153 * (if m > 2 then m - 3 else m + 9) + 2) div 5 + d - 1;
          doe = yoe * 365 + yoe div 4 - yoe div 100 + doy
      in era * 146097 + doe - 719468)"

definition civilFromDays :: "int \<Rightarrow> int \<times> int \<times> int" where
  \<comment> \<open>year, month and day of the day that many days after 1970-01-01\<close>
  "civilFromDays z =
     (let z' = z + 719468;
          era = z' div 146097;
          doe = z' - era * 146097;
          yoe = (doe - doe div 1460 + doe div 36524 - doe div 146096) div 365;
          doy = doe - (365 * yoe + yoe div 4 - yoe div 100);
          mp = (5 * doy + 2) div 153;
          d = doy - (153 * mp + 2) div 5 + 1;
          m = (if mp < 10 then mp + 3 else mp - 9);
          y = yoe + era * 400
      in (if m \<le> 2 then y + 1 else y, m, d))"

text \<open>
  The runtime is not part of the source files. The two definitions below describe the V8
  engine (Node.js) where the properties need a concrete runtime. \<open>new Date(s)\<close> reads a
  date-only text with a month from 1 to 12 and a day from 1 to 31 as midnight UTC of the
  first of that month plus the days that follow, so a day the month does not have runs on
  into the next month; what it makes of any other text is the parameter \<open>other\<close>.
  \<open>toLocaleDateString('en-US', {year: 'numeric', month: 'long', day: 'numeric'})\<close> is given
  for a process in the time zone UTC and for dates of the common era.
\<close>

definition v8_dateParse :: "(string \<Rightarrow> int option) \<Rightarrow> string \<Rightarrow> int option" where
  "v8_dateParse other s =
     (case dateOnlyText s of
        Some (y, m, d) \<Rightarrow>
          if 1 \<le> m \<and> m \<le> 12 \<and> 1 \<le> d \<and> d \<le> 31
          then Some ((daysFromCivil (int y) (int m) 1 + (int d - 1)) * 86400000)
          else other s
      | None \<Rightarrow> other s)"

fun showNat :: "nat \<Rightarrow> string" where
  "showNat n =
     (if n < 10 then [char_of (48 + n)] else showNat (n div 10) @ [char_of (48 + n mod 10)])"

declare showNat.simps [simp del]

definition monthName :: "int \<Rightarrow> string" where
  "monthName m =
     (if m = 1 then ''January'' else if m = 2 then ''February'' else if m = 3 then ''March''
      else if m = 4 then ''April'' else if m = 5 then ''May'' else if m = 6 then ''June''
      else if m = 7 then ''July'' else if m = 8 then ''August'' else if m = 9 then ''September''
      else if m = 10 then ''October'' else if m = 11 then ''November'' else ''December'')"

definition enUS_long_utc :: "int \<Rightarrow> string" where
  "enUS_long_utc t =
     (case civilFromDays (t div 86400000) of
        (y, m, d) \<Rightarrow> monthName m @ '' '' @ showNat (nat d) @ '', '' @ showNat (nat y))"

section \<open>The published posts\<close>

record blog_data =
  title :: string
  description :: string
  publishDate :: int  \<comment> \<open>the time value of the Date, which the schema has checked\<close>
  author :: string
  tags :: "string list"
  image_data :: "string option"
  draft :: bool

record blog_post =
  id_post :: string
  slug :: string
  body :: string
  data :: blog_data

fun insert_cmp :: "('a \<Rightarrow> 'a \<Rightarrow> int) \<Rightarrow> 'a \<Rightarrow> 'a list \<Rightarrow> 'a list" where
  "insert_cmp cmp x [] = [x]"
| "insert_cmp cmp x (y # ys) = (if cmp x y \<le> 0 then x # y # ys else y # insert_cmp cmp x ys)"

definition sort_cmp :: "('a \<Rightarrow> 'a \<Rightarrow> int) \<Rightarrow> 'a list \<Rightarrow> 'a list" where
  \<comment> \<open>\<open>Array.prototype.sort(cmp)\<close>, a stable sort: an element goes before the first one that
      the comparator does not put before it, so equal elements keep their order\<close>
  "sort_cmp cmp xs = foldr (insert_cmp cmp) xs []"

definition getPublishedBlogPosts :: "blog_post list \<Rightarrow> blog_post list" where
  \<comment> \<open>the argument is the content of the collection \<open>blog\<close> that \<open>getCollection\<close> reads\<close>
  "getPublishedBlogPosts collection =
     (let posts = filter (\<lambda>e. \<not> draft (data e)) collection
      in sort_cmp (\<lambda>a b. publishDate (data b) - publishDate (data a)) posts)"

definition entry :: "string \<Rightarrow> int \<Rightarrow> bool \<Rightarrow> blog_post" where
  \<comment> \<open>an entry of the collection with the given identifier, publish date and draft flag,
      for the examples\<close>
  "entry i d dr =
     \<lparr>id_post = i, slug = sanitizeSlug i, body = ''Text.'',
      data = \<lparr>title = ''Title'', description = ''About'', publishDate = d, author = ''Author'',
              tags = [], image_data = None, draft = dr\<rparr>\<rparr>"

section \<open>Properties of the reading time\<close>

lemma split_ws_nonempty: "split_ws s \<noteq> []"
  by (subst split_ws.simps) (simp add: Let_def)

lemma length_split_ws_pos: "0 < length (split_ws s)"
  using split_ws_nonempty [of s] by simp

lemma ceil_div_pos: "0 < a \<Longrightarrow> 1 \<le> ceil_div a 200"
  by (simp add: ceil_div_def)

text \<open>
  C9: on a body of at most 100,000 code units the reading time of \<open>src/utils/blog.ts\<close> and
  the reading time of the hardened utilities are the same number.
\<close>

theorem reading_time_implementations_agree:
  "length content \<le> 100000 \<Longrightarrow> calculateReadingTime_blog content = calculateReadingTime content"
proof -
  assume "length content \<le> 100000"
  then have t: "take 100000 content = content" by simp
  have "1 \<le> ceil_div (length (split_ws (trim content))) 200"
    by (rule ceil_div_pos) (rule length_split_ws_pos)
  then show ?thesis
    by (simp add: calculateReadingTime_blog_def calculateReadingTime_def t max_def)
qed

theorem reading_time_implementations_agree_witness:
  "length ''two words'' \<le> 100000
   \<and> calculateReadingTime_blog ''two words'' = calculateReadingTime ''two words''"
  using reading_time_implementations_agree [of "''two words''"] by simp

lemma spec_words_Nil [simp]: "spec_words [] = []"
  by (subst spec_words.simps) simp

lemma spec_words_ws_Cons: "isWhiteSpace c \<Longrightarrow> spec_words (c # s) = spec_words s"
  by (subst spec_words.simps, subst (2) spec_words.simps) simp

lemma spec_words_dropWhile: "spec_words (dropWhile isWhiteSpace s) = spec_words s"
  by (induction s) (simp_all add: spec_words_ws_Cons)

lemma spec_words_all_ws: "\<forall>c\<in>set r. isWhiteSpace c \<Longrightarrow> spec_words r = []"
  by (induction r) (simp_all add: spec_words_ws_Cons)

lemma spec_words_nonws_Cons:
  "\<not> isWhiteSpace c \<Longrightarrow>
   spec_words (c # s) =
     (c # takeWhile (\<lambda>c. \<not> isWhiteSpace c) s) # spec_words (dropWhile (\<lambda>c. \<not> isWhiteSpace c) s)"
  by (subst spec_words.simps) simp

lemma dropWhile_all_Nil: "(\<And>x. x \<in> set xs \<Longrightarrow> P x) \<Longrightarrow> dropWhile P xs = []"
  by simp

lemma takeWhile_all_id: "(\<And>x. x \<in> set xs \<Longrightarrow> P x) \<Longrightarrow> takeWhile P xs = xs"
  by simp

lemma takeWhile_nonws_all_ws:
  "\<forall>c\<in>set r. isWhiteSpace c \<Longrightarrow> takeWhile (\<lambda>c. \<not> isWhiteSpace c) r = []"
  by (cases r) simp_all

lemma dropWhile_nonws_all_ws:
  "\<forall>c\<in>set r. isWhiteSpace c \<Longrightarrow> dropWhile (\<lambda>c. \<not> isWhiteSpace c) r = r"
  by (cases r) simp_all

lemma spec_words_append_ws:
  "\<forall>c\<in>set r. isWhiteSpace c \<Longrightarrow> spec_words (s @ r) = spec_words s"
proof (induction "length s" arbitrary: s rule: less_induct)
  case less
  show ?case
  proof (cases s)
    case Nil
    then show ?thesis using less.prems by (simp add: spec_words_all_ws)
  next
    case (Cons c cs)
    show ?thesis
    proof (cases "isWhiteSpace c")
      case True
      have "spec_words (cs @ r) = spec_words cs"
        using less.hyps [of cs] less.prems Cons by simp
      then show ?thesis using True Cons by (simp add: spec_words_ws_Cons)
    next
      case False
      show ?thesis
      proof (cases "\<exists>x\<in>set cs. isWhiteSpace x")
        case True
        then obtain x where x: "x \<in> set cs" "\<not> \<not> isWhiteSpace x" by auto
        have tk: "takeWhile (\<lambda>c. \<not> isWhiteSpace c) (cs @ r) = takeWhile (\<lambda>c. \<not> isWhiteSpace c) cs"
          using x by (rule takeWhile_append1)
        have dr: "dropWhile (\<lambda>c. \<not> isWhiteSpace c) (cs @ r) = dropWhile (\<lambda>c. \<not> isWhiteSpace c) cs @ r"
          using x by (rule dropWhile_append1)
        have "length (dropWhile (\<lambda>c. \<not> isWhiteSpace c) cs) < length s"
          using length_dropWhile_le [of "\<lambda>c. \<not> isWhiteSpace c" cs] Cons by simp
        then have "spec_words (dropWhile (\<lambda>c. \<not> isWhiteSpace c) cs @ r)
                   = spec_words (dropWhile (\<lambda>c. \<not> isWhiteSpace c) cs)"
          using less.hyps less.prems by blast
        then show ?thesis using False Cons tk dr by (simp add: spec_words_nonws_Cons)
      next
        case False
        note allnw = this
        have tk: "takeWhile (\<lambda>c. \<not> isWhiteSpace c) (cs @ r) = cs"
          using allnw less.prems by (simp add: takeWhile_append2 takeWhile_nonws_all_ws)
        have dr: "dropWhile (\<lambda>c. \<not> isWhiteSpace c) (cs @ r) = r"
          using allnw less.prems by (simp add: dropWhile_append2 dropWhile_nonws_all_ws)
        have tk': "takeWhile (\<lambda>c. \<not> isWhiteSpace c) cs = cs" using allnw by simp
        have dr': "dropWhile (\<lambda>c. \<not> isWhiteSpace c) cs = []" using allnw by simp
        have "spec_words (c # cs @ r) = [c # cs]"
          using \<open>\<not> isWhiteSpace c\<close> less.prems
          by (simp add: spec_words_nonws_Cons tk dr spec_words_all_ws)
        moreover have "spec_words (c # cs) = [c # cs]"
          using \<open>\<not> isWhiteSpace c\<close>
          by (simp add: spec_words_nonws_Cons tk' dr')
        ultimately show ?thesis using Cons by simp
      qed
    qed
  qed
qed

lemma trim_decomp:
  "dropWhile isWhiteSpace s = trim s @ rev (takeWhile isWhiteSpace (rev (dropWhile isWhiteSpace s)))"
proof -
  let ?u = "dropWhile isWhiteSpace s"
  have "rev (takeWhile isWhiteSpace (rev ?u) @ dropWhile isWhiteSpace (rev ?u)) = ?u"
    by (simp only: takeWhile_dropWhile_id rev_rev_ident)
  then show ?thesis by (simp only: rev_append trim_def)
qed

lemma spec_words_trim: "spec_words (trim s) = spec_words s"
proof -
  let ?r = "rev (takeWhile isWhiteSpace (rev (dropWhile isWhiteSpace s)))"
  have ws: "\<forall>c\<in>set ?r. isWhiteSpace c" by (auto dest: set_takeWhileD)
  have "spec_words s = spec_words (dropWhile isWhiteSpace s)" by (simp add: spec_words_dropWhile)
  also have "\<dots> = spec_words (trim s @ ?r)" using trim_decomp [of s] by simp
  also have "\<dots> = spec_words (trim s)" using ws by (rule spec_words_append_ws)
  finally show ?thesis by simp
qed

lemma trim_last: "trim s \<noteq> [] \<Longrightarrow> \<not> isWhiteSpace (last (trim s))"
proof -
  assume ne: "trim s \<noteq> []"
  let ?d = "dropWhile isWhiteSpace (rev (dropWhile isWhiteSpace s))"
  have "?d \<noteq> []" using ne by (simp add: trim_def)
  then have "\<not> isWhiteSpace (hd ?d)" by (rule hd_dropWhile)
  moreover have "last (trim s) = hd ?d" using \<open>?d \<noteq> []\<close> by (simp add: trim_def last_rev)
  ultimately show ?thesis by simp
qed

lemma trim_hd: "trim s \<noteq> [] \<Longrightarrow> \<not> isWhiteSpace (hd (trim s))"
proof -
  assume ne: "trim s \<noteq> []"
  let ?u = "dropWhile isWhiteSpace s"
  have u: "?u = trim s @ rev (takeWhile isWhiteSpace (rev ?u))" by (rule trim_decomp)
  have "?u \<noteq> []"
  proof
    assume a: "?u = []"
    have "trim s = rev (dropWhile isWhiteSpace (rev ?u))" by (simp only: trim_def)
    also have "\<dots> = []" by (simp only: a rev.simps dropWhile.simps)
    finally show False using ne by simp
  qed
  then have "\<not> isWhiteSpace (hd ?u)" by (rule hd_dropWhile)
  moreover have "hd ?u = hd (trim s)" using ne by (subst u) simp
  ultimately show ?thesis by simp
qed

lemma split_ws_trimmed:
  "s \<noteq> [] \<Longrightarrow> \<not> isWhiteSpace (hd s) \<Longrightarrow> \<not> isWhiteSpace (last s) \<Longrightarrow> split_ws s = spec_words s"
proof (induction "length s" arbitrary: s rule: less_induct)
  case less
  let ?nw = "\<lambda>c. \<not> isWhiteSpace c"
  let ?rest = "dropWhile ?nw s"
  obtain c cs where s: "s = c # cs" using less.prems(1) by (cases s) auto
  have c: "\<not> isWhiteSpace c" using less.prems(2) s by simp
  have sw: "spec_words s = takeWhile ?nw s # spec_words ?rest"
    using c s by (simp add: spec_words_nonws_Cons)
  have rest_eq: "?rest = dropWhile ?nw cs" using c s by simp
  show ?case
  proof (cases "?rest = []")
    case True
    then have "spec_words ?rest = []" by (simp only: spec_words_Nil)
    then have "spec_words s = [takeWhile ?nw s]" by (simp only: sw)
    moreover have "split_ws s = [takeWhile ?nw s]"
      by (subst split_ws.simps) (simp only: Let_def True simp_thms if_True)
    ultimately show ?thesis by simp
  next
    case False
    let ?t = "dropWhile isWhiteSpace (tl ?rest)"
    have hdws: "isWhiteSpace (hd ?rest)" using hd_dropWhile [OF False] by simp
    have t_eq: "?t = dropWhile isWhiteSpace ?rest" using False hdws by (cases ?rest) simp_all
    have s_dec: "s = takeWhile ?nw s @ ?rest" by simp
    have last_rest: "last ?rest = last s" using False by (subst (2) s_dec) (simp del: takeWhile_dropWhile_id)
    have "\<not> (\<forall>x\<in>set ?rest. isWhiteSpace x)"
      using less.prems(3) last_rest False last_in_set [of ?rest] by auto
    then have t_ne: "?t \<noteq> []" by (simp add: t_eq)
    have t_hd: "\<not> isWhiteSpace (hd ?t)" using t_ne unfolding t_eq by (rule hd_dropWhile)
    have "?rest = takeWhile isWhiteSpace ?rest @ ?t" by (simp add: t_eq)
    then have "last ?rest = last ?t" using t_ne by (metis last_appendR)
    then have t_last: "\<not> isWhiteSpace (last ?t)" using less.prems(3) last_rest by simp
    have "length ?t \<le> length ?rest" unfolding t_eq by (rule length_dropWhile_le)
    also have "\<dots> \<le> length cs" unfolding rest_eq by (rule length_dropWhile_le)
    finally have "length ?t < length s" using s by simp
    then have ih: "split_ws ?t = spec_words ?t" using less.hyps t_ne t_hd t_last by blast
    have "spec_words ?rest = spec_words ?t" by (simp add: t_eq spec_words_dropWhile)
    then have A: "spec_words s = takeWhile ?nw s # split_ws ?t"
      by (simp only: sw ih)
    have B: "split_ws s = takeWhile ?nw s # split_ws ?t"
      by (subst split_ws.simps) (simp only: Let_def False if_False)
    show ?thesis by (simp only: A B)
  qed
qed

lemma words_of_trim:
  "length (split_ws (trim s)) = (if trim s = [] then 1 else length (spec_words s))"
proof (cases "trim s = []")
  case True
  then show ?thesis by (subst split_ws.simps) simp
next
  case False
  then have "split_ws (trim s) = spec_words (trim s)"
    using trim_hd trim_last by (intro split_ws_trimmed) auto
  then show ?thesis using False by (simp add: spec_words_trim)
qed

lemma spec_words_trim_Nil: "trim s = [] \<Longrightarrow> spec_words s = []"
  using spec_words_trim [of s] by simp

lemma calculateReadingTime_refines:
  "calculateReadingTime content = calculateReadingTime_spec content"
  by (simp add: calculateReadingTime_def calculateReadingTime_spec_def words_of_trim
      spec_words_trim_Nil ceil_div_def Let_def)

lemma spec_words_joined:
  "isWord w \<Longrightarrow> list_all isWord rest \<Longrightarrow>
   spec_words (w @ concat (map (\<lambda>v. CHR '' '' # v) rest)) = w # rest"
proof (induction rest arbitrary: w)
  case Nil
  obtain c cs where w: "w = c # cs" using Nil(1) by (cases w) (auto simp: isWord_def)
  then have "\<not> isWhiteSpace c" "\<forall>x\<in>set cs. \<not> isWhiteSpace x"
    using Nil(1) by (auto simp: isWord_def list_all_iff)
  then show ?case using w
    by (simp add: spec_words_nonws_Cons dropWhile_all_Nil takeWhile_all_id)
next
  case (Cons v vs)
  let ?tail = "concat (map (\<lambda>v. CHR '' '' # v) vs)"
  obtain c cs where w: "w = c # cs" using Cons.prems(1) by (cases w) (auto simp: isWord_def)
  then have c: "\<not> isWhiteSpace c" and cs: "\<And>x. x \<in> set cs \<Longrightarrow> \<not> isWhiteSpace x"
    using Cons.prems(1) by (auto simp: isWord_def list_all_iff)
  have sp: "isWhiteSpace CHR '' ''" by (simp add: isWhiteSpace_def)
  have tk: "takeWhile (\<lambda>c. \<not> isWhiteSpace c) (cs @ CHR '' '' # v @ ?tail) = cs"
    using cs sp by (simp add: takeWhile_append2)
  have dr: "dropWhile (\<lambda>c. \<not> isWhiteSpace c) (cs @ CHR '' '' # v @ ?tail) = CHR '' '' # v @ ?tail"
    using cs sp by (simp add: dropWhile_append2)
  have "spec_words (v @ ?tail) = v # vs" using Cons.IH [of v] Cons.prems(2) by simp
  then show ?case using w c tk dr sp by (simp add: spec_words_nonws_Cons spec_words_ws_Cons)
qed

lemma spec_words_joinSpaces: "list_all isWord ws \<Longrightarrow> spec_words (joinSpaces ws) = ws"
  by (cases ws) (simp_all add: joinSpaces_def spec_words_joined)

lemma length_joinSpaces_le: "length (joinSpaces ws) \<le> length (concat ws) + length ws"
proof (cases ws)
  case Nil
  then show ?thesis by (simp add: joinSpaces_def)
next
  case (Cons w rest)
  have "length (concat (map (\<lambda>v. CHR '' '' # v) rest)) = length (concat rest) + length rest"
    by (induction rest) simp_all
  then show ?thesis using Cons by (simp add: joinSpaces_def)
qed

lemma reading_time_of_words:
  assumes "list_all isWord ws" and "length (joinSpaces ws) \<le> 100000"
  shows "calculateReadingTime (joinSpaces ws) = max 1 (ceil_div (length ws) 200)"
  using assms by (simp add: calculateReadingTime_refines calculateReadingTime_spec_def spec_words_joinSpaces)

text \<open>
  C4, as amended: for every body, the empty one included, \<open>calculateReadingTime\<close> is the
  reference computation (the first 100,000 code units, their words counted, divided by 200,
  rounded up, and at least 1), so it is never below 1; and a body of exactly 400 words joined
  by single spaces gives 2 when the body has at most 100,000 code units.
\<close>

theorem reading_time_reference:
  "calculateReadingTime content = calculateReadingTime_spec content
   \<and> 1 \<le> calculateReadingTime content
   \<and> (list_all isWord ws \<longrightarrow> length ws = 400 \<longrightarrow> length (joinSpaces ws) \<le> 100000
        \<longrightarrow> calculateReadingTime (joinSpaces ws) = 2)"
proof (intro conjI impI)
  show "calculateReadingTime content = calculateReadingTime_spec content"
    by (rule calculateReadingTime_refines)
  show "1 \<le> calculateReadingTime content"
    by (simp add: calculateReadingTime_def Let_def)
next
  assume "list_all isWord ws" "length ws = 400" "length (joinSpaces ws) \<le> 100000"
  then show "calculateReadingTime (joinSpaces ws) = 2"
    by (simp add: reading_time_of_words ceil_div_def)
qed

theorem reading_time_reference_witness:
  "list_all isWord (replicate 400 ''word'') \<and> length (replicate 400 ''word'') = 400
   \<and> length (joinSpaces (replicate 400 ''word'')) \<le> 100000
   \<and> calculateReadingTime (joinSpaces (replicate 400 ''word'')) = 2
   \<and> calculateReadingTime [] = calculateReadingTime_spec [] \<and> 1 \<le> calculateReadingTime []"
proof -
  have w: "list_all isWord (replicate 400 ''word'')"
    by (simp add: list_all_iff isWord_def isWhiteSpace_def)
  have "length (joinSpaces (replicate 400 ''word'')) \<le> length (concat (replicate 400 ''word'')) + 400"
    using length_joinSpaces_le [of "replicate 400 ''word''"] by simp
  also have "length (concat (replicate 400 ''word'')) = 1600"
    by (simp add: length_concat sum_list_replicate)
  finally have l: "length (joinSpaces (replicate 400 ''word'')) \<le> 100000" by simp
  show ?thesis
    using reading_time_reference [of "[]" "replicate 400 ''word''"] w l by simp
qed

text \<open>
  A body of exactly 400 space-separated words that does not give 2: a first word of 100,000
  letters followed by 399 one-letter words. Only the first word survives the cut, so the
  reading time is 1.
\<close>

theorem reading_time_long_words_counterexample:
  "list_all isWord (replicate 100000 CHR ''a'' # replicate 399 ''a'')
   \<and> length (replicate 100000 CHR ''a'' # replicate 399 ''a'') = 400
   \<and> calculateReadingTime (joinSpaces (replicate 100000 CHR ''a'' # replicate 399 ''a'')) = 1"
proof -
  let ?w = "replicate 100000 CHR ''a''"
  have a: "\<not> isWhiteSpace CHR ''a''" by (simp add: isWhiteSpace_def)
  have w: "isWord ?w" using a by (simp add: isWord_def list_all_iff)
  have ws: "list_all isWord (?w # replicate 399 ''a'')"
    using w a by (simp add: list_all_iff isWord_def)
  have tk: "take 100000 (joinSpaces (?w # replicate 399 ''a'')) = ?w"
    by (simp add: joinSpaces_def)
  have "spec_words ?w = [?w]" using spec_words_joined [OF w, of "[]"] by simp
  then have "calculateReadingTime (joinSpaces (?w # replicate 399 ''a'')) = 1"
    by (simp add: calculateReadingTime_refines calculateReadingTime_spec_def tk ceil_div_def)
  then show ?thesis using ws by simp
qed

section \<open>Properties of the slug sanitizer\<close>

lemma isSlugChar_hyphen: "isSlugChar CHR ''-''"
  by (simp add: isSlugChar_def)

lemma hyphen_not_alnum: "\<not> isLowerAlnum CHR ''-''"
  by (simp add: isLowerAlnum_def in_range_def)

lemma toLowerCase_char_slug: "isSlugChar c \<Longrightarrow> toLowerCase_char c = c"
  by (auto simp: isSlugChar_def isLowerAlnum_def toLowerCase_char_def in_range_def)

lemma toLowerCase_slug: "list_all isSlugChar s \<Longrightarrow> toLowerCase s = s"
  by (induction s) (simp_all add: toLowerCase_def toLowerCase_char_slug)

lemma replace_slug_all:
  "list_all isSlugChar (map (\<lambda>c. if isSlugChar c then c else CHR ''-'') s)"
  by (induction s) (simp_all add: isSlugChar_hyphen)

lemma replace_slug_id:
  "list_all isSlugChar s \<Longrightarrow> map (\<lambda>c. if isSlugChar c then c else CHR ''-'') s = s"
  by (induction s) simp_all

lemma collapseHyphens_all: "list_all P s \<Longrightarrow> list_all P (collapseHyphens s)"
  by (induction s rule: collapseHyphens.induct) auto

lemma collapseHyphens_hd: "hd (collapseHyphens s) = hd s"
  by (induction s rule: collapseHyphens.induct) simp_all

lemma collapseHyphens_Nil: "collapseHyphens s = [] \<longleftrightarrow> s = []"
  by (induction s rule: collapseHyphens.induct) simp_all

lemma noDoubleHyphen_Cons:
  "noDoubleHyphen (c # s) \<longleftrightarrow> (s = [] \<or> \<not> (c = CHR ''-'' \<and> hd s = CHR ''-'')) \<and> noDoubleHyphen s"
  by (cases s) auto

lemma noDoubleHyphen_collapse: "noDoubleHyphen (collapseHyphens s)"
proof (induction s rule: collapseHyphens.induct)
  case (1 c d cs)
  then show ?case
    by (auto simp: noDoubleHyphen_Cons collapseHyphens_hd collapseHyphens_Nil
        simp del: noDoubleHyphen.simps collapseHyphens.simps(1)
        simp add: collapseHyphens.simps(1) [of c d cs])
qed simp_all

lemma collapseHyphens_id: "noDoubleHyphen s \<Longrightarrow> collapseHyphens s = s"
  by (induction s rule: collapseHyphens.induct) auto

lemma noDoubleHyphen_butlast: "noDoubleHyphen s \<Longrightarrow> noDoubleHyphen (butlast s)"
  by (induction s rule: noDoubleHyphen.induct) (auto simp: noDoubleHyphen_Cons)

lemma noDoubleHyphen_last2:
  "noDoubleHyphen s \<Longrightarrow> last s = CHR ''-'' \<Longrightarrow> butlast s \<noteq> [] \<Longrightarrow> last (butlast s) \<noteq> CHR ''-''"
  by (induction s rule: noDoubleHyphen.induct) (auto split: if_splits)

lemma stripEdgeHyphens_clean:
  assumes "list_all isSlugChar s" and "noDoubleHyphen s"
  shows "cleanSlug (stripEdgeHyphens s)"
proof -
  let ?a = "case s of [] \<Rightarrow> [] | c # cs \<Rightarrow> if c = CHR ''-'' then cs else s"
  have a1: "list_all isSlugChar ?a" using assms(1) by (cases s) simp_all
  have a2: "noDoubleHyphen ?a" using assms(2) by (cases s) (simp_all add: noDoubleHyphen_Cons)
  have a3: "?a = [] \<or> hd ?a \<noteq> CHR ''-''"
    using assms(2) by (cases s) (auto simp: noDoubleHyphen_Cons)
  show ?thesis
  proof (cases "?a \<noteq> [] \<and> last ?a = CHR ''-''")
    case True
    then have r: "stripEdgeHyphens s = butlast ?a" by (simp add: stripEdgeHyphens_def)
    have "list_all isSlugChar (butlast ?a)"
      using a1 by (auto simp: list_all_iff dest: in_set_butlastD)
    moreover have "noDoubleHyphen (butlast ?a)" using a2 by (rule noDoubleHyphen_butlast)
    moreover have "butlast ?a = [] \<or> (hd (butlast ?a) \<noteq> CHR ''-'' \<and> last (butlast ?a) \<noteq> CHR ''-'')"
    proof (cases "butlast ?a = []")
      case False
      have "hd (butlast ?a) = hd ?a" using False by (cases ?a) (auto split: if_splits)
      moreover have "last (butlast ?a) \<noteq> CHR ''-''"
        using a2 True False by (intro noDoubleHyphen_last2) auto
      ultimately show ?thesis using a3 True by auto
    qed simp
    ultimately show ?thesis unfolding r cleanSlug_def by blast
  next
    case False
    then have r: "stripEdgeHyphens s = ?a" by (auto simp: stripEdgeHyphens_def)
    show ?thesis unfolding r cleanSlug_def using a1 a2 a3 False by blast
  qed
qed

lemma stripEdgeHyphens_id: "cleanSlug r \<Longrightarrow> stripEdgeHyphens r = r"
  by (cases r) (auto simp: cleanSlug_def stripEdgeHyphens_def)

lemma sanitizeSlug_clean: "cleanSlug (sanitizeSlug s)"
  unfolding sanitizeSlug_def
  by (intro stripEdgeHyphens_clean collapseHyphens_all replace_slug_all noDoubleHyphen_collapse)

lemma sanitizeSlug_fixed: "cleanSlug r \<Longrightarrow> sanitizeSlug r = r"
  by (simp add: sanitizeSlug_def cleanSlug_def toLowerCase_slug replace_slug_id collapseHyphens_id
      stripEdgeHyphens_id)

lemma cleanSlug_matches: "cleanSlug r \<Longrightarrow> matchesSlugPattern r"
proof -
  assume c: "cleanSlug r"
  show ?thesis
  proof (cases "r = []")
    case True then show ?thesis by (simp add: matchesSlugPattern_def)
  next
    case False
    then have "hd r \<in> set r" "last r \<in> set r" by simp_all
    then have "isSlugChar (hd r)" "isSlugChar (last r)"
      using c by (auto simp: cleanSlug_def list_all_iff)
    then show ?thesis using c False by (auto simp: cleanSlug_def matchesSlugPattern_def isSlugChar_def)
  qed
qed

lemma sanitizeSlug_example: "sanitizeSlug ''--Hello,  World!--'' = ''hello-world''"
  by code_simp

text \<open>
  C7: \<open>sanitizeSlug\<close> is a total function (no branch of it throws); applying it twice is
  applying it once; its result matches \<open>^[a-z0-9]([a-z0-9-]*[a-z0-9])?$|^$\<close> and has no two
  hyphens in a row; and the empty string gives the empty string.
\<close>

theorem sanitizeSlug_idempotent_and_well_formed:
  "sanitizeSlug (sanitizeSlug s) = sanitizeSlug s
   \<and> matchesSlugPattern (sanitizeSlug s)
   \<and> noDoubleHyphen (sanitizeSlug s)
   \<and> sanitizeSlug [] = []"
proof (intro conjI)
  show "sanitizeSlug (sanitizeSlug s) = sanitizeSlug s"
    by (rule sanitizeSlug_fixed) (rule sanitizeSlug_clean)
  show "matchesSlugPattern (sanitizeSlug s)"
    by (rule cleanSlug_matches) (rule sanitizeSlug_clean)
  show "noDoubleHyphen (sanitizeSlug s)"
    using sanitizeSlug_clean [of s] by (simp add: cleanSlug_def)
  show "sanitizeSlug [] = []"
    by (simp add: sanitizeSlug_def toLowerCase_def stripEdgeHyphens_def)
qed

theorem sanitizeSlug_idempotent_witness:
  "sanitizeSlug ''--Hello,  World!--'' = ''hello-world''
   \<and> sanitizeSlug ''hello-world'' = ''hello-world''
   \<and> matchesSlugPattern ''hello-world'' \<and> noDoubleHyphen ''hello-world''"
  using sanitizeSlug_idempotent_and_well_formed [of "''--Hello,  World!--''"]
  by (simp add: sanitizeSlug_example)

section \<open>Properties of the tag normalizer\<close>

lemma trim_Nil_iff: "trim s = [] \<longleftrightarrow> list_all isWhiteSpace s"
proof
  assume "trim s = []"
  then have "spec_words s = []" by (rule spec_words_trim_Nil)
  show "list_all isWhiteSpace s"
  proof (rule ccontr)
    assume "\<not> list_all isWhiteSpace s"
    then have "dropWhile isWhiteSpace s \<noteq> []" by (simp add: list_all_iff)
    then have "spec_words s \<noteq> []" by (subst spec_words.simps) (simp add: Let_def)
    with \<open>spec_words s = []\<close> show False by simp
  qed
next
  assume "list_all isWhiteSpace s"
  then have "dropWhile isWhiteSpace s = []" by (simp add: list_all_iff)
  then show "trim s = []" by (simp only: trim_def rev.simps dropWhile.simps)
qed

lemma map_filter_nonBlank: "List.map_filter nonBlankString ts = stringEntries_spec ts"
  by (induction ts rule: stringEntries_spec.induct)
     (simp_all add: List.map_filter_simps trim_Nil_iff)

lemma toLowerCase_char_not_upper: "\<not> in_range (toLowerCase_char c) 65 90"
  by (auto simp: toLowerCase_char_def in_range_def)

lemma isTagClassChar_lower:
  "isTagClassChar (toLowerCase_char c) \<longleftrightarrow> isTagChar_spec (toLowerCase_char c)"
  using toLowerCase_char_not_upper [of c]
  by (auto simp: isTagClassChar_def isTagChar_spec_def isLowerAlnum_def)

lemma tagPatternTest_lower:
  "tagPatternTest (toLowerCase t) \<longleftrightarrow> matchesTagPattern_spec (toLowerCase t)"
  by (simp add: tagPatternTest_def matchesTagPattern_spec_def toLowerCase_def list_all_iff
      isTagClassChar_lower)

lemma filter_tagPattern_lower:
  "filter tagPatternTest (map (\<lambda>s. toLowerCase (trim s)) xs)
   = filter matchesTagPattern_spec (map (\<lambda>s. toLowerCase (trim s)) xs)"
  by (induction xs) (simp_all add: tagPatternTest_lower)

lemma sanitizeTags_refines: "sanitizeTags ts = sanitizeTags_spec ts"
  by (simp add: sanitizeTags_def sanitizeTags_spec_def map_filter_nonBlank filter_tagPattern_lower)

lemma stringEntries_append:
  "stringEntries_spec (xs @ ys) = stringEntries_spec xs @ stringEntries_spec ys"
  by (induction xs rule: stringEntries_spec.induct) simp_all

lemma script_tag_normal: "toLowerCase (trim ''C++ <script>'') = ''c++ <script>''"
  by code_simp

lemma script_tag_rejected: "\<not> matchesTagPattern_spec ''c++ <script>''"
  by code_simp

lemma sanitizeTags_spec_script:
  "sanitizeTags_spec (pre @ JString ''C++ <script>'' # post) = sanitizeTags_spec (pre @ post)"
  by (simp add: sanitizeTags_spec_def stringEntries_append script_tag_normal script_tag_rejected)

lemma web_design: "sanitizeTags [JString ''Web-Design''] = [''web-design'']"
  by code_simp

lemma valid_entries:
  "list_all validTag ts \<Longrightarrow>
   filter matchesTagPattern_spec (map (\<lambda>s. toLowerCase (trim s)) (stringEntries_spec ts))
   = map normalizedTag ts"
  by (induction ts rule: stringEntries_spec.induct) simp_all

lemma sanitizeTags_valid:
  "list_all validTag ts \<Longrightarrow> sanitizeTags ts = map normalizedTag (take 10 ts)"
  by (simp add: sanitizeTags_refines sanitizeTags_spec_def valid_entries take_map)

lemma sanitizeTags_members: "t \<in> set (sanitizeTags ts) \<Longrightarrow> matchesTagPattern_spec t"
  by (auto simp: sanitizeTags_refines sanitizeTags_spec_def dest!: in_set_takeD)

lemma eleven_tags_valid:
  "list_all validTag (map JString [''T1'', ''t2'', ''t3'', ''t4'', ''t5'', ''t6'', ''t7'', ''t8'', ''t9'', '' t10 '', ''t11''])"
  by code_simp

lemma eleven_tags_normal:
  "map normalizedTag (take 10 (map JString [''T1'', ''t2'', ''t3'', ''t4'', ''t5'', ''t6'', ''t7'', ''t8'', ''t9'', '' t10 '', ''t11'']))
   = [''t1'', ''t2'', ''t3'', ''t4'', ''t5'', ''t6'', ''t7'', ''t8'', ''t9'', ''t10'']"
  by code_simp

text \<open>
  C6: for every input sequence, \<open>sanitizeTags\<close> is the reference normalization (entries that
  are not strings or are blank dropped, the rest trimmed and put in lower case, those
  matching \<open>^[a-z0-9-\s]+$\<close> kept, the first 10 taken in their order). So the entry
  \<open>C++ <script>\<close> adds nothing to the output and is never in it, \<open>Web-Design\<close> becomes
  \<open>web-design\<close>, and more than 10 valid tags give exactly the first 10, normalized, in order.
\<close>

theorem sanitizeTags_reference:
  "sanitizeTags ts = sanitizeTags_spec ts
   \<and> sanitizeTags (pre @ JString ''C++ <script>'' # post) = sanitizeTags (pre @ post)
   \<and> ''C++ <script>'' \<notin> set (sanitizeTags ts) \<and> ''c++ <script>'' \<notin> set (sanitizeTags ts)
   \<and> sanitizeTags [JString ''Web-Design''] = [''web-design'']
   \<and> (list_all validTag vs \<longrightarrow> 10 < length vs \<longrightarrow>
        length (sanitizeTags vs) = 10 \<and> sanitizeTags vs = map normalizedTag (take 10 vs))"
proof (intro conjI impI)
  show "sanitizeTags ts = sanitizeTags_spec ts" by (rule sanitizeTags_refines)
  show "sanitizeTags (pre @ JString ''C++ <script>'' # post) = sanitizeTags (pre @ post)"
    by (simp only: sanitizeTags_refines sanitizeTags_spec_script)
  have "\<not> matchesTagPattern_spec ''C++ <script>''" by code_simp
  then show "''C++ <script>'' \<notin> set (sanitizeTags ts)" using sanitizeTags_members by blast
  show "''c++ <script>'' \<notin> set (sanitizeTags ts)"
    using sanitizeTags_members script_tag_rejected by blast
  show "sanitizeTags [JString ''Web-Design''] = [''web-design'']" by (rule web_design)
next
  assume v: "list_all validTag vs" and l: "10 < length vs"
  show "sanitizeTags vs = map normalizedTag (take 10 vs)" using v by (rule sanitizeTags_valid)
  then show "length (sanitizeTags vs) = 10" using l by simp
qed

theorem sanitizeTags_reference_witness:
  "list_all validTag (map JString [''T1'', ''t2'', ''t3'', ''t4'', ''t5'', ''t6'', ''t7'', ''t8'', ''t9'', '' t10 '', ''t11''])
   \<and> 10 < length (map JString [''T1'', ''t2'', ''t3'', ''t4'', ''t5'', ''t6'', ''t7'', ''t8'', ''t9'', '' t10 '', ''t11''])
   \<and> sanitizeTags (map JString [''T1'', ''t2'', ''t3'', ''t4'', ''t5'', ''t6'', ''t7'', ''t8'', ''t9'', '' t10 '', ''t11''])
       = [''t1'', ''t2'', ''t3'', ''t4'', ''t5'', ''t6'', ''t7'', ''t8'', ''t9'', ''t10'']"
  using sanitizeTags_reference [of "[]" "[]" "[]"
      "map JString [''T1'', ''t2'', ''t3'', ''t4'', ''t5'', ''t6'', ''t7'', ''t8'', ''t9'', '' t10 '', ''t11'']"]
    eleven_tags_valid eleven_tags_normal
  by simp

section \<open>Properties of the excerpt generator\<close>

lemma slice0_nonneg: "0 \<le> e \<Longrightarrow> slice0 s e = take (nat e) s"
  by (simp add: slice0_def)

lemma lastIndexOf_absent: "c \<notin> set s \<Longrightarrow> lastIndexOf s c = - 1"
  by (simp add: lastIndexOf_def)

lemma lastIndexOf_present:
  assumes "c \<in> set s"
  shows "\<exists>i. lastIndexOf s c = int i \<and> i < length s \<and> s ! i = c \<and> c \<notin> set (drop (Suc i) s)"
proof -
  let ?r = "dropWhile (\<lambda>x. x \<noteq> c) (rev s)"
  let ?p = "takeWhile (\<lambda>x. x \<noteq> c) (rev s)"
  have ne: "?r \<noteq> []" using assms by simp
  then obtain r' where r: "?r = c # r'"
    using hd_dropWhile [OF ne] by (cases ?r) auto
  have "rev s = ?p @ c # r'" using r by (metis takeWhile_dropWhile_id)
  then have s: "s = rev r' @ c # rev ?p" by (metis rev_append rev.simps(2) rev_rev_ident append_Cons append_Nil append_assoc)
  have len: "length ?r = Suc (length r')" using r by simp
  have i: "lastIndexOf s c = int (length r')" using ne len by (simp add: lastIndexOf_def Let_def)
  have "length r' < length s" by (subst s) simp
  moreover have "s ! length r' = c" by (subst s) (simp add: nth_append)
  moreover have "drop (Suc (length r')) s = rev ?p" by (subst s) simp
  then have "c \<notin> set (drop (Suc (length r')) s)" by (auto dest: set_takeWhileD)
  ultimately show ?thesis using i by blast
qed

lemma plainTextOf_trimmed:
  "plainTextOf content = [] \<or> \<not> isWhiteSpace (hd (plainTextOf content))"
  unfolding plainTextOf_def using trim_hd by blast

lemma generateExcerpt_short:
  "length (plainTextOf content) \<le> 160 \<Longrightarrow> generateExcerpt content 160 = plainTextOf content"
  by (simp add: generateExcerpt_def Let_def)

lemma generateExcerpt_hard_cut:
  assumes "160 < length (plainTextOf content)"
    and "CHR '' '' \<notin> set (take 160 (plainTextOf content))"
  shows "generateExcerpt content 160 = take 160 (plainTextOf content) @ ''...''"
  using assms by (simp add: generateExcerpt_def Let_def slice0_nonneg lastIndexOf_absent)

lemma generateExcerpt_word_cut:
  assumes long: "160 < length (plainTextOf content)"
    and sp: "CHR '' '' \<in> set (take 160 (plainTextOf content))"
  shows "\<exists>i. 0 < i \<and> i < 160 \<and> plainTextOf content ! i = CHR '' ''
            \<and> CHR '' '' \<notin> set (drop (Suc i) (take 160 (plainTextOf content)))
            \<and> generateExcerpt content 160 = take i (plainTextOf content) @ ''...''"
proof -
  let ?p = "plainTextOf content"
  let ?t = "take 160 ?p"
  obtain i where i: "lastIndexOf ?t CHR '' '' = int i" "i < length ?t" "?t ! i = CHR '' ''"
      "CHR '' '' \<notin> set (drop (Suc i) ?t)"
    using lastIndexOf_present [OF sp] by blast
  have i160: "i < 160" using i(2) by simp
  then have pi: "?p ! i = CHR '' ''" using i(3) by simp
  have "i \<noteq> 0"
  proof
    assume "i = 0"
    then have "hd ?p = CHR '' ''" using pi long by (cases ?p) auto
    moreover have "?p \<noteq> []" using long by auto
    ultimately show False using plainTextOf_trimmed [of content] by (auto simp: isWhiteSpace_def)
  qed
  then have ipos: "0 < i" by simp
  have "generateExcerpt content 160 = take i ?t @ ''...''"
    using long i(1) ipos by (simp add: generateExcerpt_def Let_def slice0_nonneg)
  also have "take i ?t = take i ?p" using i160 by (simp add: min_def)
  finally show ?thesis using ipos i160 pi i(4) by blast
qed

lemma generateExcerpt_length: "length (generateExcerpt content 160) \<le> 163"
proof (cases "length (plainTextOf content) \<le> 160")
  case True
  then show ?thesis by (simp add: generateExcerpt_short)
next
  case False
  then have long: "160 < length (plainTextOf content)" by simp
  show ?thesis
  proof (cases "CHR '' '' \<in> set (take 160 (plainTextOf content))")
    case True
    from generateExcerpt_word_cut [OF long True] obtain i where
      "i < 160" "generateExcerpt content 160 = take i (plainTextOf content) @ ''...''" by blast
    then show ?thesis by simp
  next
    case False
    then show ?thesis using long by (simp add: generateExcerpt_hard_cut)
  qed
qed


lemma excerpt_example_plain:
  "plainTextOf (concat (replicate 40 ''<b>word</b> '')) = concat (replicate 39 ''word '') @ ''word''"
  by code_simp

lemma excerpt_example_result:
  "generateExcerpt (concat (replicate 40 ''<b>word</b> '')) 160 = concat (replicate 31 ''word '') @ ''word...''"
  by code_simp

text \<open>
  What \<open>generateExcerpt\<close> does at the default maximum of 160: the result has at most 163 code
  units; a plain text of at most 160 code units is returned as it is; a longer one is cut
  before the last space character (U+0020) among its first 160 code units when there is one,
  and after 160 code units otherwise, and the ellipsis is appended.
\<close>

lemma generateExcerpt_bound_and_cut:
  "length (generateExcerpt content 160) \<le> 163
   \<and> (length (plainTextOf content) \<le> 160 \<longrightarrow> generateExcerpt content 160 = plainTextOf content)
   \<and> (160 < length (plainTextOf content) \<longrightarrow> CHR '' '' \<in> set (take 160 (plainTextOf content)) \<longrightarrow>
        (\<exists>i. 0 < i \<and> i < 160 \<and> plainTextOf content ! i = CHR '' ''
            \<and> CHR '' '' \<notin> set (drop (Suc i) (take 160 (plainTextOf content)))
            \<and> generateExcerpt content 160 = take i (plainTextOf content) @ ''...''))
   \<and> (160 < length (plainTextOf content) \<longrightarrow> CHR '' '' \<notin> set (take 160 (plainTextOf content)) \<longrightarrow>
        generateExcerpt content 160 = take 160 (plainTextOf content) @ ''...'')"
  using generateExcerpt_length generateExcerpt_short generateExcerpt_word_cut generateExcerpt_hard_cut
  by blast

lemma generateExcerpt_bound_and_cut_example:
  "160 < length (plainTextOf (concat (replicate 40 ''<b>word</b> '')))
   \<and> CHR '' '' \<in> set (take 160 (plainTextOf (concat (replicate 40 ''<b>word</b> ''))))
   \<and> length (generateExcerpt (concat (replicate 40 ''<b>word</b> '')) 160) \<le> 163
   \<and> generateExcerpt (concat (replicate 40 ''<b>word</b> '')) 160
       = concat (replicate 31 ''word '') @ ''word...''"
proof -
  have a: "160 < length (plainTextOf (concat (replicate 40 ''<b>word</b> '')))"
    unfolding excerpt_example_plain by code_simp
  have b: "CHR '' '' \<in> set (take 160 (plainTextOf (concat (replicate 40 ''<b>word</b> ''))))"
    unfolding excerpt_example_plain by code_simp
  show ?thesis
    using generateExcerpt_bound_and_cut [of "concat (replicate 40 ''<b>word</b> '')"] a b
      excerpt_example_result
    by simp
qed

text \<open>
  C5: the bound of 163 holds, but the excerpt can split a word although whitespace stands
  before the cut. The body below is one word of 100 letters, a line feed, and one word of 100
  letters; nothing is stripped from it. The search for the last complete word looks for the
  space character only, finds none, and the excerpt ends after 59 letters of the second word.
\<close>

theorem generateExcerpt_splits_word_after_line_feed:
  "plainTextOf (replicate 100 CHR ''a'' @ [CHR 0x0A] @ replicate 100 CHR ''b'')
     = replicate 100 CHR ''a'' @ [CHR 0x0A] @ replicate 100 CHR ''b''
   \<and> isWhiteSpace ((replicate 100 CHR ''a'' @ [CHR 0x0A] @ replicate 100 CHR ''b'') ! 100)
   \<and> (replicate 100 CHR ''a'' @ [CHR 0x0A] @ replicate 100 CHR ''b'') ! 159 = CHR ''b''
   \<and> (replicate 100 CHR ''a'' @ [CHR 0x0A] @ replicate 100 CHR ''b'') ! 160 = CHR ''b''
   \<and> generateExcerpt (replicate 100 CHR ''a'' @ [CHR 0x0A] @ replicate 100 CHR ''b'') 160
       = replicate 100 CHR ''a'' @ [CHR 0x0A] @ replicate 59 CHR ''b'' @ ''...''"
  by code_simp

section \<open>Properties of the published posts\<close>

lemma insert_cmp_insort:
  "insert_cmp (\<lambda>a b. publishDate (data b) - publishDate (data a)) x ys
   = insort_key (\<lambda>p. - publishDate (data p)) x ys"
  by (induction ys) simp_all

lemma sort_cmp_sort_key:
  "sort_cmp (\<lambda>a b. publishDate (data b) - publishDate (data a)) xs
   = sort_key (\<lambda>p. - publishDate (data p)) xs"
  by (induction xs) (simp_all add: sort_cmp_def insert_cmp_insort)

lemma getPublishedBlogPosts_sort_key:
  "getPublishedBlogPosts collection
   = sort_key (\<lambda>p. - publishDate (data p)) (filter (\<lambda>e. \<not> draft (data e)) collection)"
  by (simp add: getPublishedBlogPosts_def sort_cmp_sort_key)

lemma published_set:
  "set (getPublishedBlogPosts collection) = {e \<in> set collection. \<not> draft (data e)}"
  by (simp add: getPublishedBlogPosts_sort_key)

lemma published_mset:
  "mset (getPublishedBlogPosts collection) = filter_mset (\<lambda>e. \<not> draft (data e)) (mset collection)"
  by (simp add: getPublishedBlogPosts_sort_key)

lemma published_sorted:
  "sorted (map (\<lambda>p. - publishDate (data p)) (getPublishedBlogPosts collection))"
  by (simp add: getPublishedBlogPosts_sort_key)

lemma published_descending:
  "sorted_wrt (\<lambda>a b. publishDate (data a) \<ge> publishDate (data b)) (getPublishedBlogPosts collection)"
  using published_sorted [of collection] by (simp add: sorted_wrt_map sorted_map)

lemma published_stable:
  "filter (\<lambda>p. publishDate (data p) = d) (getPublishedBlogPosts collection)
   = filter (\<lambda>p. publishDate (data p) = d) (filter (\<lambda>e. \<not> draft (data e)) collection)"
proof -
  have "filter (\<lambda>p. - publishDate (data p) = - d) (getPublishedBlogPosts collection)
      = filter (\<lambda>p. - publishDate (data p) = - d) (filter (\<lambda>e. \<not> draft (data e)) collection)"
    unfolding getPublishedBlogPosts_sort_key by (rule sort_key_stable)
  then show ?thesis by simp
qed


lemma entry_fields [simp]:
  "id_post (entry i d dr) = i" "publishDate (data (entry i d dr)) = d" "draft (data (entry i d dr)) = dr"
  by (simp_all add: entry_def)

lemma entry_eq_iff: "entry i d dr = entry i' d' dr' \<longleftrightarrow> i = i' \<and> d = d' \<and> dr = dr'"
  by (auto simp: entry_def)

lemma two_published:
  "d2 \<le> d1 \<Longrightarrow> getPublishedBlogPosts [entry i1 d1 False, entry i2 d2 False]
     = [entry i1 d1 False, entry i2 d2 False]"
  by (simp add: getPublishedBlogPosts_def sort_cmp_def)

lemma three_dates_example:
  "getPublishedBlogPosts
     [entry ''first.md'' 1705276800000 False, entry ''second.md'' 1705708800000 False,
      entry ''third.md'' 1706140800000 False]
   = [entry ''third.md'' 1706140800000 False, entry ''second.md'' 1705708800000 False,
      entry ''first.md'' 1705276800000 False]"
  by (simp add: getPublishedBlogPosts_def sort_cmp_def)

lemma conflicting_slugs:
  "sanitizeSlug ''Hello World.md'' = ''hello-world-md''" "sanitizeSlug ''hello-world.md'' = ''hello-world-md''"
  by code_simp+

text \<open>
  C2, as amended: the published posts are the entries that are not drafts, ordered by publish
  date with the newest first; entries with the same publish date keep the order they have in
  the collection (the sort is stable and compares dates only).
\<close>

theorem published_order:
  "sorted_wrt (\<lambda>a b. publishDate (data a) \<ge> publishDate (data b)) (getPublishedBlogPosts collection)
   \<and> mset (getPublishedBlogPosts collection) = filter_mset (\<lambda>e. \<not> draft (data e)) (mset collection)
   \<and> filter (\<lambda>p. publishDate (data p) = d) (getPublishedBlogPosts collection)
       = filter (\<lambda>p. publishDate (data p) = d) (filter (\<lambda>e. \<not> draft (data e)) collection)"
  using published_descending published_mset published_stable by blast

theorem published_order_witness:
  "getPublishedBlogPosts
     [entry ''first.md'' 1705276800000 False, entry ''second.md'' 1705708800000 False,
      entry ''third.md'' 1706140800000 False]
   = [entry ''third.md'' 1706140800000 False, entry ''second.md'' 1705708800000 False,
      entry ''first.md'' 1705276800000 False]
   \<and> sorted_wrt (\<lambda>a b. publishDate (data a) \<ge> publishDate (data b))
       [entry ''third.md'' 1706140800000 False, entry ''second.md'' 1705708800000 False,
        entry ''first.md'' 1705276800000 False]"
  using published_order [of "[entry ''first.md'' 1705276800000 False,
      entry ''second.md'' 1705708800000 False, entry ''third.md'' 1706140800000 False]" 0]
  by (simp only: three_dates_example)

text \<open>
  Two entries with the same publish date, given with identifier \<open>b.md\<close> before \<open>a.md\<close>, come
  out in that order, not by identifier ascending.
\<close>

theorem published_ties_counterexample:
  "publishDate (data (entry ''b.md'' 1705276800000 False))
     = publishDate (data (entry ''a.md'' 1705276800000 False))
   \<and> map id_post
       (getPublishedBlogPosts [entry ''b.md'' 1705276800000 False, entry ''a.md'' 1705276800000 False])
     = [''b.md'', ''a.md'']"
  by (simp add: two_published)

text \<open>
  C8: an entry whose \<open>draft\<close> flag is true is never among the published posts, whatever its
  other fields are.
\<close>

theorem drafts_excluded:
  "draft (data e) \<longrightarrow> e \<notin> set (getPublishedBlogPosts collection)"
  by (simp add: published_set)

theorem drafts_excluded_witness:
  "draft (data (entry ''wip.md'' 1706140800000 True))
   \<and> entry ''wip.md'' 1706140800000 True
       \<notin> set (getPublishedBlogPosts
                [entry ''wip.md'' 1706140800000 True, entry ''first.md'' 1705276800000 False])"
  using drafts_excluded [of "entry ''wip.md'' 1706140800000 True"
      "[entry ''wip.md'' 1706140800000 True, entry ''first.md'' 1705276800000 False]"]
  by simp

text \<open>
  C1, as amended: \<open>getPublishedBlogPosts\<close> compares no slugs and has no failing branch. Two
  entries that are not drafts and whose identifiers sanitize to the same slug are both among
  the published posts, and the output has as many entries as the collection has non-drafts.
\<close>

theorem duplicate_slugs_both_published:
  "a \<in> set collection \<Longrightarrow> b \<in> set collection \<Longrightarrow> \<not> draft (data a) \<Longrightarrow> \<not> draft (data b) \<Longrightarrow>
   sanitizeSlug (id_post a) = sanitizeSlug (id_post b) \<Longrightarrow>
   a \<in> set (getPublishedBlogPosts collection) \<and> b \<in> set (getPublishedBlogPosts collection)
   \<and> length (getPublishedBlogPosts collection) = length (filter (\<lambda>e. \<not> draft (data e)) collection)"
  by (simp add: published_set getPublishedBlogPosts_sort_key)

text \<open>
  The identifiers \<open>Hello World.md\<close> and \<open>hello-world.md\<close> sanitize to the same slug, and the
  output sequence holds both entries.
\<close>

theorem duplicate_slugs_counterexample:
  "id_post (entry ''Hello World.md'' 1705276800000 False) \<noteq> id_post (entry ''hello-world.md'' 1705276800000 False)
   \<and> \<not> draft (data (entry ''Hello World.md'' 1705276800000 False))
   \<and> \<not> draft (data (entry ''hello-world.md'' 1705276800000 False))
   \<and> sanitizeSlug (id_post (entry ''Hello World.md'' 1705276800000 False))
       = sanitizeSlug (id_post (entry ''hello-world.md'' 1705276800000 False))
   \<and> getPublishedBlogPosts
        [entry ''Hello World.md'' 1705276800000 False, entry ''hello-world.md'' 1705276800000 False]
       = [entry ''Hello World.md'' 1705276800000 False, entry ''hello-world.md'' 1705276800000 False]"
  by (simp add: two_published conflicting_slugs)

theorem duplicate_slugs_both_published_witness:
  "sanitizeSlug (id_post (entry ''Hello World.md'' 1706140800000 False))
       = sanitizeSlug (id_post (entry ''hello-world.md'' 1705276800000 False))
   \<and> entry ''Hello World.md'' 1706140800000 False
       \<in> set (getPublishedBlogPosts
                [entry ''hello-world.md'' 1705276800000 False, entry ''Hello World.md'' 1706140800000 False])
   \<and> entry ''hello-world.md'' 1705276800000 False
       \<in> set (getPublishedBlogPosts
                [entry ''hello-world.md'' 1705276800000 False, entry ''Hello World.md'' 1706140800000 False])"
  using duplicate_slugs_both_published [of "entry ''Hello World.md'' 1706140800000 False"
      "[entry ''hello-world.md'' 1705276800000 False, entry ''Hello World.md'' 1706140800000 False]"
      "entry ''hello-world.md'' 1705276800000 False"]
  by (simp add: conflicting_slugs)

section \<open>Properties of the content schema\<close>

lemma zod_parse_string_issue: "(\<forall>s. v \<noteq> JString s) \<Longrightarrow> zod_parse ZString v = Inl [invalid_type]"
  by (cases v) simp_all

lemma zod_object_parse_issues:
  "concat (map (field_issues raw) shape) \<noteq> [] \<Longrightarrow>
   zod_object_parse shape raw = Inl (concat (map (field_issues raw) shape))"
proof -
  have a: "map (\<lambda>(k, r). case r of Inl is \<Rightarrow> map (Pair k) is | Inr v \<Rightarrow> [])
             (map (\<lambda>(k, t). (k, zod_parse t (field_of raw k))) shape)
           = map (field_issues raw) shape"
    by (induction shape) (auto simp: field_issues_def)
  assume "concat (map (field_issues raw) shape) \<noteq> []"
  then show ?thesis unfolding zod_object_parse_def Let_def a by simp
qed

lemma required_string_rejected:
  assumes "(k, ZString) \<in> set shape" and "\<forall>s. raw k \<noteq> Some (JString s)"
  shows "\<exists>issues. zod_object_parse shape raw = Inl issues \<and> (k, invalid_type) \<in> set issues"
proof -
  have "\<forall>s. field_of raw k \<noteq> JString s"
    using assms(2) by (auto simp: field_of_def split: option.splits)
  then have "zod_parse ZString (field_of raw k) = Inl [invalid_type]"
    by (rule zod_parse_string_issue)
  then have "field_issues raw (k, ZString) = [(k, invalid_type)]"
    by (simp add: field_issues_def)
  then have mem: "(k, invalid_type) \<in> set (concat (map (field_issues raw) shape))"
    using assms(1) by force
  then have "concat (map (field_issues raw) shape) \<noteq> []" by (metis empty_iff empty_set)
  then show ?thesis using mem by (simp add: zod_object_parse_issues)
qed

lemma blog_required:
  "k \<in> {''title'', ''description'', ''author''} \<Longrightarrow> (k, ZString) \<in> set blogCollection"
  by (auto simp: blogCollection_def)

lemma blog_accepts_any_strings:
  "zod_object_parse blogCollection
     [''title'' \<mapsto> JString t, ''description'' \<mapsto> JString d, ''publishDate'' \<mapsto> JDate (Some p),
      ''author'' \<mapsto> JString a]
   = Inr [(''title'', JString t), (''description'', JString d), (''publishDate'', JDate (Some p)),
          (''author'', JString a), (''tags'', JArray []), (''draft'', JBoolean False)]"
proof -
  let ?raw = "[''title'' \<mapsto> JString t, ''description'' \<mapsto> JString d,
      ''publishDate'' \<mapsto> JDate (Some p), ''author'' \<mapsto> JString a]"
  have f: "field_of ?raw ''title'' = JString t" "field_of ?raw ''description'' = JString d"
    "field_of ?raw ''publishDate'' = JDate (Some p)" "field_of ?raw ''author'' = JString a"
    "field_of ?raw ''tags'' = JUndefined" "field_of ?raw ''image'' = JUndefined"
    "field_of ?raw ''draft'' = JUndefined"
    by (simp_all add: field_of_def)
  have g: "?raw ''image'' = None" by simp
  show ?thesis
    unfolding zod_object_parse_def blogCollection_def Let_def list.map prod.case f
    by (simp add: g)
qed

lemma missing_title_example:
  "zod_object_parse blogCollection
     [''description'' \<mapsto> JString ''About'', ''publishDate'' \<mapsto> JDate (Some 1705276800000),
      ''author'' \<mapsto> JString ''Author'']
   = Inl [(''title'', invalid_type)]"
  by code_simp

lemma validateRecords_append:
  "validateRecords (xs @ ys)
   = (fst (validateRecords xs) @ fst (validateRecords ys),
      snd (validateRecords xs) @ snd (validateRecords ys))"
  by (simp add: validateRecords_def List.map_filter_def Let_def)

lemma validateRecords_Cons:
  "validateRecords (x # xs)
   = (fst (validateRecords [x]) @ fst (validateRecords xs),
      snd (validateRecords [x]) @ snd (validateRecords xs))"
  using validateRecords_append [of "[x]" xs] by simp

lemma validateRecords_rejected:
  "zod_object_parse blogCollection raw = Inl issues \<Longrightarrow>
   validateRecords [(i, raw)] = ([(i, issues)], [])"
  by (simp add: validateRecords_def List.map_filter_def Let_def)

lemma rejected_record_excluded:
  assumes "zod_object_parse blogCollection raw = Inl issues"
  shows "snd (validateRecords (pre @ (i, raw) # post)) = snd (validateRecords (pre @ post))"
    and "(i, issues) \<in> set (fst (validateRecords (pre @ (i, raw) # post)))"
proof -
  have one: "validateRecords ((i, raw) # post)
      = ((i, issues) # fst (validateRecords post), snd (validateRecords post))"
    by (simp add: validateRecords_Cons [of "(i, raw)" post] validateRecords_rejected [OF assms])
  show "snd (validateRecords (pre @ (i, raw) # post)) = snd (validateRecords (pre @ post))"
    by (simp add: validateRecords_append [of pre "(i, raw) # post"] one
        validateRecords_append [of pre post])
  show "(i, issues) \<in> set (fst (validateRecords (pre @ (i, raw) # post)))"
    by (simp add: validateRecords_append [of pre "(i, raw) # post"] one)
qed

lemma validateRecords_example:
  "validateRecords
     [(''no-title.md'',
       [''description'' \<mapsto> JString ''About'', ''publishDate'' \<mapsto> JDate (Some 1705276800000),
        ''author'' \<mapsto> JString ''Author'']),
      (''post.md'',
       [''title'' \<mapsto> JString ''Title'', ''description'' \<mapsto> JString ''About'',
        ''publishDate'' \<mapsto> JDate (Some 1705708800000), ''author'' \<mapsto> JString ''Author''])]
   = ([(''no-title.md'', [(''title'', invalid_type)])],
      [(''post.md'',
        [(''title'', JString ''Title''), (''description'', JString ''About''),
         (''publishDate'', JDate (Some 1705708800000)), (''author'', JString ''Author''),
         (''tags'', JArray []), (''draft'', JBoolean False)])])"
  by code_simp

text \<open>
  C3, as amended: for every raw metadata mapping, validation against the schema of the
  collection fails with an issue of type \<open>invalid_type\<close> under the key whenever \<open>title\<close>,
  \<open>description\<close> or \<open>author\<close> is absent or is not a string, and it accepts every string for
  these keys, the empty string included. In particular a record without a title is rejected,
  and the validation step of the pipeline reports it and leaves it out of its output while
  the other records come out as they would without it.
\<close>

theorem schema_required_strings:
  "(k \<in> {''title'', ''description'', ''author''} \<longrightarrow> (\<forall>s. raw k \<noteq> Some (JString s)) \<longrightarrow>
      (\<exists>issues. zod_object_parse blogCollection raw = Inl issues \<and> (k, invalid_type) \<in> set issues))
   \<and> (\<exists>out. zod_object_parse blogCollection
          [''title'' \<mapsto> JString t, ''description'' \<mapsto> JString d, ''publishDate'' \<mapsto> JDate (Some p),
           ''author'' \<mapsto> JString a] = Inr out)
   \<and> ((\<forall>s. raw ''title'' \<noteq> Some (JString s)) \<longrightarrow>
        snd (validateRecords (pre @ (i, raw) # post)) = snd (validateRecords (pre @ post))
        \<and> (\<exists>issues. (i, issues) \<in> set (fst (validateRecords (pre @ (i, raw) # post)))
              \<and> (''title'', invalid_type) \<in> set issues))"
proof (intro conjI impI)
  assume "k \<in> {''title'', ''description'', ''author''}" and "\<forall>s. raw k \<noteq> Some (JString s)"
  then show "\<exists>issues. zod_object_parse blogCollection raw = Inl issues \<and> (k, invalid_type) \<in> set issues"
    by (intro required_string_rejected blog_required)
next
  show "\<exists>out. zod_object_parse blogCollection
          [''title'' \<mapsto> JString t, ''description'' \<mapsto> JString d, ''publishDate'' \<mapsto> JDate (Some p),
           ''author'' \<mapsto> JString a] = Inr out"
    by (rule exI) (rule blog_accepts_any_strings)
next
  assume no_title: "\<forall>s. raw ''title'' \<noteq> Some (JString s)"
  have "(''title'', ZString) \<in> set blogCollection" by (rule blog_required) simp
  from required_string_rejected [of "''title''" blogCollection raw, OF this no_title]
  obtain issues where r: "zod_object_parse blogCollection raw = Inl issues"
    and t: "(''title'', invalid_type) \<in> set issues"
    by blast
  show "snd (validateRecords (pre @ (i, raw) # post)) = snd (validateRecords (pre @ post))"
    using r by (rule rejected_record_excluded(1))
  have "(i, issues) \<in> set (fst (validateRecords (pre @ (i, raw) # post)))"
    using r by (rule rejected_record_excluded(2))
  then show "\<exists>issues. (i, issues) \<in> set (fst (validateRecords (pre @ (i, raw) # post)))
      \<and> (''title'', invalid_type) \<in> set issues"
    using t by blast
qed

text \<open>
  A title that is the empty string, and so is not a non-empty string after trimming, passes
  validation.
\<close>

theorem schema_empty_title_counterexample:
  "trim [] = [] \<and>
   zod_object_parse blogCollection
     [''title'' \<mapsto> JString [], ''description'' \<mapsto> JString ''About'',
      ''publishDate'' \<mapsto> JDate (Some 1705276800000), ''author'' \<mapsto> JString ''Author'']
   = Inr [(''title'', JString []), (''description'', JString ''About''),
          (''publishDate'', JDate (Some 1705276800000)), (''author'', JString ''Author''),
          (''tags'', JArray []), (''draft'', JBoolean False)]"
proof (rule conjI)
  show "trim [] = []" by (simp add: trim_def)
qed (rule blog_accepts_any_strings)

theorem schema_required_strings_witness:
  "''title'' \<in> {''title'', ''description'', ''author''}
   \<and> zod_object_parse blogCollection
     [''description'' \<mapsto> JString ''About'', ''publishDate'' \<mapsto> JDate (Some 1705276800000),
      ''author'' \<mapsto> JString ''Author'']
   = Inl [(''title'', invalid_type)]
   \<and> snd (validateRecords
        [(''no-title.md'',
          [''description'' \<mapsto> JString ''About'', ''publishDate'' \<mapsto> JDate (Some 1705276800000),
           ''author'' \<mapsto> JString ''Author'']),
         (''post.md'',
          [''title'' \<mapsto> JString ''Title'', ''description'' \<mapsto> JString ''About'',
           ''publishDate'' \<mapsto> JDate (Some 1705708800000), ''author'' \<mapsto> JString ''Author''])])
     = [(''post.md'',
        [(''title'', JString ''Title''), (''description'', JString ''About''),
         (''publishDate'', JDate (Some 1705708800000)), (''author'', JString ''Author''),
         (''tags'', JArray []), (''draft'', JBoolean False)])]"
proof -
  let ?raw = "[''description'' \<mapsto> JString ''About'',
      ''publishDate'' \<mapsto> JDate (Some 1705276800000), ''author'' \<mapsto> JString ''Author'']"
  have k: "''title'' \<in> {''title'', ''description'', ''author''}" by simp
  have absent: "\<forall>s. ?raw ''title'' \<noteq> Some (JString s)" by simp
  from schema_required_strings [of "''title''" ?raw] k absent
  obtain issues where "zod_object_parse blogCollection ?raw = Inl issues"
      "(''title'', invalid_type) \<in> set issues"
    by blast
  then show ?thesis
    using k missing_title_example by (intro conjI) (assumption+, simp only: validateRecords_example snd_conv)
qed

section \<open>Properties of the date formatting\<close>

lemma formatDate_by_timeValue:
  "formatDate dateParse toLocaleDateString date =
     Inr (case timeValue dateParse date of None \<Rightarrow> ''Invalid date'' | Some t \<Rightarrow> toLocaleDateString t)"
  by (cases date) (auto simp: formatDate_def split: option.splits)

lemma monthName_hd: "monthName m \<noteq> [] \<and> hd (monthName m) \<noteq> CHR ''I''"
  by (simp add: monthName_def)

lemma enUS_long_utc_no_sentinel: "enUS_long_utc t \<noteq> ''Invalid date''"
proof -
  obtain y m d where c: "civilFromDays (t div 86400000) = (y, m, d)"
    by (cases "civilFromDays (t div 86400000)")
  have "hd (enUS_long_utc t) = hd (monthName m)"
    using monthName_hd [of m] by (simp add: enUS_long_utc_def c)
  then have "hd (enUS_long_utc t) \<noteq> CHR ''I''" using monthName_hd [of m] by simp
  then show ?thesis by auto
qed

lemma v8_reads_date_only:
  "dateOnlyText s = Some (y, m, d) \<Longrightarrow> 1 \<le> m \<Longrightarrow> m \<le> 12 \<Longrightarrow> 1 \<le> d \<Longrightarrow> d \<le> 31 \<Longrightarrow>
   v8_dateParse other s = Some ((daysFromCivil (int y) (int m) 1 + (int d - 1)) * 86400000)"
  by (simp add: v8_dateParse_def)

lemma january_15_time:
  "enUS_long_utc ((daysFromCivil (int 2024) (int 1) 1 + (int 15 - 1)) * 86400000) = ''January 15, 2024''"
  by code_simp

text \<open>
  C10, as amended: for every input, a Date object or a string or any other value,
  \<open>formatDate\<close> returns and throws nothing. With a runtime whose date formatting never
  produces the text \<open>Invalid date\<close>, it returns that text exactly when the runtime gives the
  input no time value (a Date object whose time value is NaN, a string from which
  \<open>new Date\<close> reads none, a value of another type), and otherwise the formatted date of that
  time value. Validity is the runtime's, not the calendar's: under V8 every date-only text
  with a month from 1 to 12 and a day from 1 to 31 is formatted, whether the month has that
  day or not.
\<close>

theorem formatDate_total:
  "(\<forall>t. toLocaleDateString t \<noteq> ''Invalid date'') \<Longrightarrow>
   (\<exists>s. formatDate dateParse toLocaleDateString date = Inr s)
   \<and> (formatDate dateParse toLocaleDateString date = Inr ''Invalid date''
        \<longleftrightarrow> timeValue dateParse date = None)
   \<and> (\<forall>t. timeValue dateParse date = Some t \<longrightarrow>
          formatDate dateParse toLocaleDateString date = Inr (toLocaleDateString t))
   \<and> (dateOnlyText s = Some (y, m, d) \<longrightarrow> 1 \<le> m \<and> m \<le> 12 \<and> 1 \<le> d \<and> d \<le> 31 \<longrightarrow>
        formatDate (v8_dateParse other) toLocaleDateString (JString s)
          = Inr (toLocaleDateString ((daysFromCivil (int y) (int m) 1 + (int d - 1)) * 86400000))
        \<and> formatDate (v8_dateParse other) toLocaleDateString (JString s) \<noteq> Inr ''Invalid date'')"
  by (auto simp: formatDate_by_timeValue v8_reads_date_only split: option.splits)

theorem formatDate_total_witness:
  "dateOnlyText ''2024-01-15'' = Some (2024, 1, 15)
   \<and> formatDate (v8_dateParse (\<lambda>s. None)) enUS_long_utc (JString ''2024-01-15'') = Inr ''January 15, 2024''
   \<and> timeValue (v8_dateParse (\<lambda>s. None)) (JString ''soon'') = None
   \<and> formatDate (v8_dateParse (\<lambda>s. None)) enUS_long_utc (JString ''soon'') = Inr ''Invalid date''"
proof -
  have h: "\<forall>t. enUS_long_utc t \<noteq> ''Invalid date''" by (simp add: enUS_long_utc_no_sentinel)
  have a: "dateOnlyText ''2024-01-15'' = Some (2024, 1, 15)" by code_simp
  have b: "timeValue (v8_dateParse (\<lambda>s. None)) (JString ''soon'') = None" by code_simp
  have r: "(1::nat) \<le> 1 \<and> (1::nat) \<le> 12 \<and> (1::nat) \<le> 15 \<and> (15::nat) \<le> 31" by simp
  note t = formatDate_total [OF h, of "v8_dateParse (\<lambda>s. None)" "JString ''soon''"
      "''2024-01-15''" 2024 1 15 "\<lambda>s. None"]
  from t b have s: "formatDate (v8_dateParse (\<lambda>s. None)) enUS_long_utc (JString ''soon'') = Inr ''Invalid date''"
    by blast
  from t a r have "formatDate (v8_dateParse (\<lambda>s. None)) enUS_long_utc (JString ''2024-01-15'')
      = Inr (enUS_long_utc ((daysFromCivil (int 2024) (int 1) 1 + (int 15 - 1)) * 86400000))"
    by blast
  then have j: "formatDate (v8_dateParse (\<lambda>s. None)) enUS_long_utc (JString ''2024-01-15'') = Inr ''January 15, 2024''"
    by (simp only: january_15_time)
  show ?thesis using a b s j by (intro conjI)
qed

text \<open>
  The text \<open>2024-02-30\<close> denotes no date of the calendar, February 2024 having 29 days. V8
  reads it as the first of March, and \<open>formatDate\<close> returns that date, not \<open>Invalid date\<close>.
\<close>

theorem formatDate_february_30_counterexample:
  "dateOnlyText ''2024-02-30'' = Some (2024, 2, 30)
   \<and> \<not> validCalendarDate 2024 2 30
   \<and> formatDate (v8_dateParse (\<lambda>s. None)) enUS_long_utc (JString ''2024-02-30'')
       = Inr ''March 1, 2024''"
  by code_simp

end
